theory Spec2Isabelle
  imports Main "HOL-Library.Sublist" "HOL-Library.Word"
begin

section \<open>The background script of the extension (background.js)\<close>

text \<open>
  The script is a set of handlers on one event loop.  Each handler runs to its end before
  the next one starts, so a handler is a function from the state before to the state after.
  The state is the five module-level variables of the script, together with the list of the
  calls the script has made so far to the browser, to \<open>setTimeout\<close> and to \<open>fetch\<close>.
  A callback registered by such a call is a handler of its own; the values of the variables
  its closure holds are its arguments.  \<open>Date.now()\<close> is read at most once in a handler:
  its value is the argument \<open>now\<close>.  Calls to \<open>console\<close> are left out, and with them
  the callbacks that only write to the console (the one of \<open>sendMessage\<close>, the \<open>catch\<close>
  of the request).

  A run may deliver any event at any time, also the expiry of a timer that was never set
  or an answer to a call that was never made.  The browser delivers fewer runs than that,
  so what holds for every run of the model holds for every run of the script.
\<close>

subsection \<open>Data\<close>

text \<open>The object \<open>{ tabId, url, sessionId: Date.now() }\<close> held by \<open>currentSession\<close>.\<close>

record session =
  tabId :: int
  url :: string
  sessionId :: int

text \<open>
  The three functions handed to \<open>setTimeout\<close>, each with the variables of its closure:
  the one of \<open>startSession\<close> holds \<open>tabId\<close> and \<open>url\<close> (and no session identifier),
  the two of \<open>handleOffTask\<close> hold \<open>tabId\<close> and, for the redirection, \<open>previousUrl\<close>.
\<close>

datatype closure =
    CaptureTimeout int string
  | RedirectTimeout int string
  | CloseTimeout int

text \<open>The three answers given through \<open>sendResponse\<close>.\<close>

datatype response =
    StartAck string
  | StopAck
  | StateReply bool string

text \<open>
  The calls that leave the script.  \<open>CaptureVisibleTab u sid\<close> is the call of
  \<open>chrome.tabs.captureVisibleTab\<close> whose callback holds \<open>url = u\<close> and \<open>sessionId = sid\<close>;
  \<open>Fetch b g sid\<close> is the request to the scoring service with body \<open>{base64Screenshot: b,
  goal: g}\<close> whose continuation holds \<open>sessionId = sid\<close>; \<open>ExecuteScript t src\<close> injects
  \<open>injectGif\<close> with argument \<open>src\<close> into tab \<open>t\<close>; \<open>SendMessage t\<close> sends
  \<open>{action: "flyOwl"}\<close> to tab \<open>t\<close>.
\<close>

datatype call =
    SendResponse response
  | SendMessage int
  | TabsGet int
  | SetTimeout closure nat
  | CaptureVisibleTab string int
  | Fetch string string int
  | ExecuteScript int string
  | TabsUpdate int string
  | TabsRemove int

record world =
  currentSession :: "session option"
  lastCaptureTime :: int
  isTracking :: bool
  currentGoal :: string
  tabHistory :: "int \<rightharpoonup> string list"
  calls :: "call list"

definition init :: world where
  "init = \<lparr>currentSession = None, lastCaptureTime = 0, isTracking = False,
            currentGoal = [], tabHistory = Map.empty, calls = []\<rparr>"

text \<open>
  A string of JavaScript is a list of code units of 16 bits.  The addresses, the goal and
  the image are kept as strings of characters: the script compares and copies them only.
\<close>

type_synonym jsstring = "16 word list"

text \<open>
  The value the scoring service answers with, after \<open>response.json()\<close>: null, a boolean,
  a number, a string, an array of values, or an object with its keys and their values.
  What the script does with a number is test whether it is zero and turn it into a string;
  how a floating-point number is written is the work of the JavaScript engine (the standard
  leaves the last digit to it), so a number is given by the string the engine writes it as:
  85 is \<open>JNum (ascii ''85'')\<close>, 85.5 is \<open>JNum (ascii ''85.5'')\<close>, 0 and -0 are
  \<open>JNum (ascii ''0'')\<close>, and \<open>10^21\<close> is \<open>JNum (ascii ''1e+21'')\<close>.  Every number has
  its value of this form; a string that no number is written as stands for no answer.
\<close>

datatype jsval =
    JNull
  | JBool bool
  | JNum jsstring
  | JStr jsstring
  | JArr "jsval list"
  | JObj "(jsstring \<times> jsval) list"

datatype message = StartTracking string | StopTracking | GetTrackingState | OtherMessage

text \<open>
  What the event loop delivers: a message from the popup, one of the three tab events, the
  expiry of a timer, or the answer to a call.  A \<open>url\<close> that is \<open>undefined\<close> is \<open>None\<close>.
  \<open>TabGot t tab\<close> is the callback of \<open>chrome.tabs.get\<close> for \<open>activeInfo.tabId = t\<close>,
  with \<open>tab = None\<close> when the browser hands over no tab, and else the \<open>url\<close> of the tab.
  \<open>Captured u sid r\<close> is the callback of the capture, \<open>r = None\<close> when
  \<open>chrome.runtime.lastError\<close> is set.  \<open>Scored sid d\<close> is the parsed answer of the
  scoring service.
\<close>

datatype event =
    Message message
  | TabUpdated int "string option" "string option"
  | TabCreated int "string option"
  | TabActivated int
  | TabGot int "string option option"
  | TimeoutFires closure
  | Captured string int "string option"
  | Scored int jsval

subsection \<open>Values of JavaScript\<close>

text \<open>\<open>!url || url.startsWith("chrome://") || url.startsWith("about:")\<close>\<close>

definition restricted :: "string option \<Rightarrow> bool" where
  "restricted u =
     (case u of None \<Rightarrow> True
      | Some s \<Rightarrow> s = [] \<or> prefix ''chrome://'' s \<or> prefix ''about:'' s)"

text \<open>The code units of a string of ASCII characters.\<close>

definition ascii :: "string \<Rightarrow> jsstring" where
  "ascii s = map of_char s"

text \<open>
  The truth value of a value in a condition.  Among the numbers, 0, -0 and \<open>NaN\<close> are
  false; arrays and objects are true, also when they are empty.
\<close>

fun truthy :: "jsval \<Rightarrow> bool" where
  "truthy JNull = False"
| "truthy (JBool b) = b"
| "truthy (JNum t) = (t \<noteq> ascii ''0'' \<and> t \<noteq> ascii ''NaN'')"
| "truthy (JStr s) = (s \<noteq> [])"
| "truthy (JArr xs) = True"
| "truthy (JObj fs) = True"

text \<open>
  A number with an integral value of magnitude up to \<open>2^53\<close> is held exactly, and
  JavaScript writes it in decimal, with a minus sign when it is negative.  \<open>jsInteger n\<close>
  is that number; beyond \<open>2^53\<close> a number is given by its string only.
\<close>

fun digits :: "nat \<Rightarrow> jsstring" where
  "digits n =
     (if n < 10 then [of_nat (48 + n)]
      else digits (n div 10) @ [of_nat (48 + n mod 10)])"

declare digits.simps [simp del]

definition jsInteger :: "int \<Rightarrow> jsval option" where
  "jsInteger n =
     (if \<bar>n\<bar> \<le> 2 ^ 53
      then Some (JNum ((if n < 0 then ascii ''-'' else []) @ digits (nat \<bar>n\<bar>)))
      else None)"

text \<open>
  The string a value is turned into where a string is expected, \<open>None\<close> when the
  conversion throws a \<open>TypeError\<close>.  An array is the strings of its elements joined by
  commas, with the empty string for an element that is null.  An object made by
  \<open>response.json()\<close> is \<open>[object Object]\<close>, unless it has a key \<open>toString\<close> of its own:
  the value under that key is no function, \<open>valueOf\<close> gives back the object, and the
  conversion throws.
\<close>

fun toString :: "jsval \<Rightarrow> jsstring option"
  and join :: "jsval list \<Rightarrow> jsstring option" where
  "toString JNull = Some (ascii ''null'')"
| "toString (JBool b) = Some (if b then ascii ''true'' else ascii ''false'')"
| "toString (JNum t) = Some t"
| "toString (JStr s) = Some s"
| "toString (JArr xs) = join xs"
| "toString (JObj fs) =
     (if ascii ''toString'' \<in> fst ` set fs then None else Some (ascii ''[object Object]''))"
| "join [] = Some []"
| "join (x # xs) =
     (case (if x = JNull then Some [] else toString x) of
        None \<Rightarrow> None
      | Some a \<Rightarrow>
          if xs = [] then Some a
          else (case join xs of None \<Rightarrow> None | Some b \<Rightarrow> Some (a @ ascii '','' @ b)))"

text \<open>
  White space and line terminators: tab, line feed, vertical tab, form feed, carriage
  return, space, no-break space, the other space separators of Unicode (U+1680, U+2000 to
  U+200A, U+202F, U+205F, U+3000), the line and paragraph separators, and U+FEFF.
\<close>

definition isWhiteSpace :: "16 word \<Rightarrow> bool" where
  "isWhiteSpace c =
     (c \<in> {0x09, 0x0A, 0x0B, 0x0C, 0x0D, 0x20, 0xA0, 0x1680, 0x2028, 0x2029, 0x202F, 0x205F,
            0x3000, 0xFEFF} \<or> (0x2000 \<le> c \<and> c \<le> 0x200A))"

definition isDigit :: "16 word \<Rightarrow> bool" where
  "isDigit c = (0x30 \<le> c \<and> c \<le> 0x39)"

definition digitValue :: "16 word \<Rightarrow> int" where
  "digitValue c = uint c - 48"

text \<open>
  \<open>parseInt(x, 10)\<close> on a string: leading white space is skipped, one sign is read, then
  the longest run of decimal digits; with no digit the result is \<open>NaN\<close>, here \<open>None\<close>.
  The result is the exact integer; the number JavaScript rounds it to is above 70 exactly
  when the integer is.
\<close>

definition parseInt :: "jsstring \<Rightarrow> int option" where
  "parseInt str =
     (let s = dropWhile isWhiteSpace str;
          neg = (s \<noteq> [] \<and> hd s = 0x2D);
          s2 = (if s \<noteq> [] \<and> (hd s = 0x2B \<or> hd s = 0x2D) then tl s else s);
          z = takeWhile isDigit s2
      in if z = [] then None
         else Some ((if neg then - 1 else 1) * foldl (\<lambda>a c. 10 * a + digitValue c) 0 z))"

text \<open>
  Line 186, \<open>parseInt(data, 10)\<close> on the answer: the answer is turned into a string, which
  is parsed.  \<open>None\<close> is \<open>NaN\<close>, or the exception of the conversion, which the \<open>catch\<close>
  of the request writes to the console.
\<close>

definition offTaskScore :: "jsval \<Rightarrow> int option" where
  "offTaskScore d = (case toString d of None \<Rightarrow> None | Some str \<Rightarrow> parseInt str)"

subsection \<open>The functions of the script\<close>

definition firstGifSrc :: string where
  "firstGifSrc = ''https://github.com/RohanT766/DeltaHacksXI/blob/main/animateWing1.gif?raw=true''"

text \<open>Lines 83 to 99.  An array is true in a condition, also when it is empty.\<close>

definition updateTabHistory :: "int \<Rightarrow> string option \<Rightarrow> world \<Rightarrow> world" where
  "updateTabHistory tid u w =
     (if restricted u then w
      else case u of None \<Rightarrow> w
      | Some s \<Rightarrow>
          (let th = (case tabHistory w tid of
                       None \<Rightarrow> (tabHistory w)(tid \<mapsto> [])
                     | Some h \<Rightarrow> tabHistory w);
               history = (case th tid of None \<Rightarrow> [] | Some h \<Rightarrow> h)
           in if history = [] \<or> last history \<noteq> s
              then w\<lparr>tabHistory := th(tid \<mapsto> history @ [s])\<rparr>
              else w\<lparr>tabHistory := th\<rparr>))"

text \<open>Lines 126 to 131.\<close>

definition endSession :: "world \<Rightarrow> world" where
  "endSession w =
     (case currentSession w of None \<Rightarrow> w | Some s \<Rightarrow> w\<lparr>currentSession := None\<rparr>)"

text \<open>
  Lines 102 to 123.  The function handed to \<open>setTimeout\<close> is \<open>captureTimeout\<close> below,
  with the \<open>tabId\<close> and \<open>url\<close> of this call.
\<close>

definition startSession :: "int \<Rightarrow> int \<Rightarrow> string option \<Rightarrow> world \<Rightarrow> world" where
  "startSession now tid u w =
     (let w1 = endSession w
      in if restricted u then w1
         else case u of None \<Rightarrow> w1
         | Some s \<Rightarrow>
             w1\<lparr>currentSession := Some \<lparr>tabId = tid, url = s, sessionId = now\<rparr>,
                calls := calls w1 @ [SetTimeout (CaptureTimeout tid s) 2000]\<rparr>)"

text \<open>Lines 134 to 155; the callback of the capture is \<open>captured\<close> below.\<close>

definition takeScreenshot :: "int \<Rightarrow> string \<Rightarrow> int \<Rightarrow> world \<Rightarrow> world" where
  "takeScreenshot now u sid w =
     (if now - lastCaptureTime w < 1000 then w
      else w\<lparr>lastCaptureTime := now, calls := calls w @ [CaptureVisibleTab u sid]\<rparr>)"

text \<open>
  Lines 116 to 122: the function \<open>startSession\<close> hands to \<open>setTimeout\<close>.  It reads the
  variable \<open>currentSession\<close> when it runs, and passes on the identifier found there.
\<close>

definition captureTimeout :: "int \<Rightarrow> int \<Rightarrow> string \<Rightarrow> world \<Rightarrow> world" where
  "captureTimeout now tid u w =
     (case currentSession w of
        None \<Rightarrow> w
      | Some s \<Rightarrow> if tabId s = tid then takeScreenshot now u (sessionId s) w else w)"

text \<open>Lines 160 to 176, up to the request; its answer is handled by \<open>scored\<close> below.\<close>

definition analyzeScreenshotWithOpenAI :: "string \<Rightarrow> string \<Rightarrow> int \<Rightarrow> world \<Rightarrow> world" where
  "analyzeScreenshotWithOpenAI base64Screenshot goal sid w =
     (case currentSession w of
        None \<Rightarrow> w
      | Some s \<Rightarrow>
          if sessionId s \<noteq> sid then w
          else w\<lparr>calls := calls w @ [Fetch base64Screenshot goal sid]\<rparr>)"

text \<open>Lines 143 to 154: the callback of \<open>captureVisibleTab\<close> in \<open>takeScreenshot\<close>.\<close>

definition captured :: "string \<Rightarrow> int \<Rightarrow> string option \<Rightarrow> world \<Rightarrow> world" where
  "captured u sid r w =
     (case r of
        None \<Rightarrow> w
      | Some dataUrl \<Rightarrow> analyzeScreenshotWithOpenAI dataUrl (currentGoal w) sid w)"

text \<open>
  Lines 201 to 238.  The two functions handed to \<open>setTimeout\<close> are the closures
  \<open>RedirectTimeout\<close> and \<open>CloseTimeout\<close>; what they do is in \<open>fire\<close> below.
\<close>

definition handleOffTask :: "int \<Rightarrow> world \<Rightarrow> world" where
  "handleOffTask tid w =
     (case tabHistory w tid of
        None \<Rightarrow>
          w\<lparr>calls := calls w @ [ExecuteScript tid firstGifSrc, SetTimeout (CloseTimeout tid) 2000]\<rparr>
      | Some h \<Rightarrow>
          if length h > 1
          then w\<lparr>calls := calls w @
                   [ExecuteScript tid firstGifSrc,
                    SetTimeout (RedirectTimeout tid (h ! (length h - 2))) 2000]\<rparr>
          else w\<lparr>calls := calls w @
                   [ExecuteScript tid firstGifSrc, SetTimeout (CloseTimeout tid) 2000]\<rparr>)"

text \<open>
  Lines 178 to 195: the second \<open>then\<close> of the request in \<open>analyzeScreenshotWithOpenAI\<close>.
  \<open>NaN > 70\<close> is false, and an exception thrown by \<open>parseInt\<close> ends the handler.
\<close>

definition scored :: "int \<Rightarrow> jsval \<Rightarrow> world \<Rightarrow> world" where
  "scored sid d w =
     (case currentSession w of
        None \<Rightarrow> w
      | Some s \<Rightarrow>
          if sessionId s \<noteq> sid then w
          else if truthy d
          then (case offTaskScore d of
                  None \<Rightarrow> w
                | Some n \<Rightarrow> if n > 70 then handleOffTask (tabId s) w else w)
          else w)"

subsection \<open>The listeners\<close>

text \<open>Lines 10 to 24, 27 to 42, 45 to 60 and 63 to 80.\<close>

fun onMessage :: "message \<Rightarrow> world \<Rightarrow> world" where
  "onMessage (StartTracking g) w =
     w\<lparr>isTracking := True, currentGoal := g,
       calls := calls w @ [SendResponse (StartAck g)]\<rparr>"
| "onMessage StopTracking w =
     (let w1 = endSession (w\<lparr>isTracking := False\<rparr>)
      in w1\<lparr>calls := calls w1 @ [SendResponse StopAck]\<rparr>)"
| "onMessage GetTrackingState w =
     w\<lparr>calls := calls w @ [SendResponse (StateReply (isTracking w) (currentGoal w))]\<rparr>"
| "onMessage OtherMessage w = w"

definition flyOwl :: "int \<Rightarrow> world \<Rightarrow> world" where
  "flyOwl tid w = w\<lparr>calls := calls w @ [SendMessage tid]\<rparr>"

definition onUpdated :: "int \<Rightarrow> int \<Rightarrow> string option \<Rightarrow> string option \<Rightarrow> world \<Rightarrow> world" where
  "onUpdated now tid status u w =
     (if isTracking w \<and> status = Some ''complete'' \<and> u \<noteq> None \<and> u \<noteq> Some []
      then flyOwl tid (startSession now tid u (updateTabHistory tid u w))
      else w)"

definition onCreated :: "int \<Rightarrow> int \<Rightarrow> string option \<Rightarrow> world \<Rightarrow> world" where
  "onCreated now tid u w =
     (if isTracking w
      then (let u1 = (if u \<noteq> None \<and> u \<noteq> Some [] then u else Some ''about:blank'')
            in flyOwl tid (startSession now tid u1 (updateTabHistory tid u1 w)))
      else w)"

definition onActivated :: "int \<Rightarrow> world \<Rightarrow> world" where
  "onActivated tid w =
     (if isTracking w then w\<lparr>calls := calls w @ [TabsGet tid]\<rparr> else w)"

text \<open>
  The callback of \<open>chrome.tabs.get\<close> in the listener of \<open>onActivated\<close>.  With no tab,
  reading \<open>tab.url\<close> throws and the callback ends there.
\<close>

definition tabGot :: "int \<Rightarrow> int \<Rightarrow> string option option \<Rightarrow> world \<Rightarrow> world" where
  "tabGot now tid tab w =
     (case tab of
        None \<Rightarrow> w
      | Some u \<Rightarrow> flyOwl tid (startSession now tid u (updateTabHistory tid u w)))"

fun fire :: "int \<Rightarrow> closure \<Rightarrow> world \<Rightarrow> world" where
  "fire now (CaptureTimeout tid u) w = captureTimeout now tid u w"
| "fire now (RedirectTimeout tid u) w = w\<lparr>calls := calls w @ [TabsUpdate tid u]\<rparr>"
| "fire now (CloseTimeout tid) w = w\<lparr>calls := calls w @ [TabsRemove tid]\<rparr>"

subsection \<open>The event loop\<close>

fun step :: "int \<Rightarrow> event \<Rightarrow> world \<Rightarrow> world" where
  "step now (Message m) w = onMessage m w"
| "step now (TabUpdated tid status u) w = onUpdated now tid status u w"
| "step now (TabCreated tid u) w = onCreated now tid u w"
| "step now (TabActivated tid) w = onActivated tid w"
| "step now (TabGot tid tab) w = tabGot now tid tab w"
| "step now (TimeoutFires c) w = fire now c w"
| "step now (Captured u sid r) w = captured u sid r w"
| "step now (Scored sid d) w = scored sid d w"

text \<open>A run: the events in the order of their delivery, each with the reading of the clock.\<close>

fun run :: "(int \<times> event) list \<Rightarrow> world \<Rightarrow> world" where
  "run [] w = w"
| "run ((now, e) # es) w = run es (step now e w)"

subsection \<open>What is observed of a run\<close>

fun isCapture :: "call \<Rightarrow> bool" where
  "isCapture (CaptureVisibleTab u sid) = True"
| "isCapture c = False"

fun isFetch :: "call \<Rightarrow> bool" where
  "isFetch (Fetch b g sid) = True"
| "isFetch c = False"

text \<open>The readings of the clock at the events of a run that made a capture.\<close>

fun captureTimes :: "(int \<times> event) list \<Rightarrow> world \<Rightarrow> int list" where
  "captureTimes [] w = []"
| "captureTimes ((now, e) # es) w =
     (if length (filter isCapture (calls (step now e w))) > length (filter isCapture (calls w))
      then now # captureTimes es (step now e w)
      else captureTimes es (step now e w))"

text \<open>No session is current before, between and after the events of the run.\<close>

fun idle :: "(int \<times> event) list \<Rightarrow> world \<Rightarrow> bool" where
  "idle [] w = (currentSession w = None)"
| "idle ((now, e) # es) w = (currentSession w = None \<and> idle es (step now e w))"

text \<open>
  The sessions that are current after each event of a run, in the order of the events.
  Only \<open>startSession\<close> stores a session, so every session the run creates is in the list.
\<close>

fun sessionsSeen :: "(int \<times> event) list \<Rightarrow> world \<Rightarrow> session list" where
  "sessionsSeen [] w = []"
| "sessionsSeen ((now, e) # es) w =
     (case currentSession (step now e w) of
        None \<Rightarrow> sessionsSeen es (step now e w)
      | Some s \<Rightarrow> s # sessionsSeen es (step now e w))"

text \<open>A sequence of calls of \<open>updateTabHistory\<close>.\<close>

fun recordVisits :: "(int \<times> string option) list \<Rightarrow> world \<Rightarrow> world" where
  "recordVisits [] w = w"
| "recordVisits ((tid, u) # vs) w = recordVisits vs (updateTabHistory tid u w)"

text \<open>No tab's history has two equal entries next to each other.\<close>

definition ledgerOk :: "world \<Rightarrow> bool" where
  "ledgerOk w = (\<forall>t h. tabHistory w t = Some h \<longrightarrow> distinct_adj h)"

subsection \<open>Example states and runs\<close>

text \<open>
  Tab 1 went from a work page to a social page, which the current session watches; tab 2
  was opened on the social page.
\<close>

definition social :: world where
  "social = init\<lparr>isTracking := True,
     currentSession :=
       Some \<lparr>tabId = 1, url = ''https://social.example.com'', sessionId = 10000\<rparr>,
     tabHistory := [1 \<mapsto> [''https://work.example.com'', ''https://social.example.com'']]\<rparr>"

definition fresh :: world where
  "fresh = init\<lparr>isTracking := True,
     currentSession :=
       Some \<lparr>tabId = 2, url = ''https://social.example.com'', sessionId = 10000\<rparr>,
     tabHistory := [2 \<mapsto> [''https://social.example.com'']]\<rparr>"

text \<open>Tracking was started and tab 1 finished loading a page: its capture is scheduled.\<close>

definition scheduled :: world where
  "scheduled =
     run [(9000, Message (StartTracking ''finish report'')),
          (10000, TabUpdated 1 (Some ''complete'') (Some ''https://docs.example.com''))] init"

text \<open>Two pages load in tab 1 one second apart, then the two timers expire.\<close>

definition churn :: "(int \<times> event) list" where
  "churn =
     [(9000, Message (StartTracking ''finish report'')),
      (10000, TabUpdated 1 (Some ''complete'') (Some ''https://a.example'')),
      (11000, TabUpdated 1 (Some ''complete'') (Some ''https://b.example'')),
      (12000, TimeoutFires (CaptureTimeout 1 ''https://a.example'')),
      (13000, TimeoutFires (CaptureTimeout 1 ''https://b.example''))]"

definition visits :: "(int \<times> string option) list" where
  "visits =
     [(1, Some ''https://a.example''), (1, Some ''https://a.example''), (1, None),
      (1, Some ''chrome://settings''), (2, Some ''https://a.example''), (1, Some []),
      (1, Some ''https://b.example''), (1, Some ''about:blank''),
      (1, Some ''https://b.example''), (1, Some ''https://a.example'')]"

section \<open>What the functions leave alone\<close>

lemma endSession_frame [simp]:
  "calls (endSession w) = calls w"
  "lastCaptureTime (endSession w) = lastCaptureTime w"
  "tabHistory (endSession w) = tabHistory w"
  "isTracking (endSession w) = isTracking w"
  "currentGoal (endSession w) = currentGoal w"
  "currentSession (endSession w) = None"
  by (auto simp: endSession_def split: option.splits)

lemma updateTabHistory_frame [simp]:
  "calls (updateTabHistory t u w) = calls w"
  "lastCaptureTime (updateTabHistory t u w) = lastCaptureTime w"
  "currentSession (updateTabHistory t u w) = currentSession w"
  "isTracking (updateTabHistory t u w) = isTracking w"
  "currentGoal (updateTabHistory t u w) = currentGoal w"
  by (auto simp: updateTabHistory_def Let_def split: option.splits)

lemma startSession_frame [simp]:
  "lastCaptureTime (startSession now t u w) = lastCaptureTime w"
  "tabHistory (startSession now t u w) = tabHistory w"
  "isTracking (startSession now t u w) = isTracking w"
  "currentGoal (startSession now t u w) = currentGoal w"
  "filter isCapture (calls (startSession now t u w)) = filter isCapture (calls w)"
  "filter isFetch (calls (startSession now t u w)) = filter isFetch (calls w)"
  by (auto simp: startSession_def Let_def split: option.splits)

lemma handleOffTask_frame [simp]:
  "lastCaptureTime (handleOffTask t w) = lastCaptureTime w"
  "tabHistory (handleOffTask t w) = tabHistory w"
  "isTracking (handleOffTask t w) = isTracking w"
  "currentGoal (handleOffTask t w) = currentGoal w"
  "currentSession (handleOffTask t w) = currentSession w"
  "filter isCapture (calls (handleOffTask t w)) = filter isCapture (calls w)"
  "filter isFetch (calls (handleOffTask t w)) = filter isFetch (calls w)"
  by (auto simp: handleOffTask_def split: option.splits)

lemma startSession_current:
  "currentSession (startSession now tid u w) =
     (if restricted u then None
      else map_option (\<lambda>s. \<lparr>tabId = tid, url = s, sessionId = now\<rparr>) u)"
  by (auto simp: startSession_def Let_def split: option.splits)

section \<open>Tab events while tracking is off\<close>

text \<open>
  Claim C10.  While \<open>isTracking\<close> is false, the listeners of the three tab events (a tab
  updated, a tab created, a tab activated) leave the whole state as it is: the history of
  the tabs, the current session, the time of the last capture, the tracking flag and the
  goal are unchanged, and no call is made, so no capture is scheduled and no message is
  sent to a tab.
\<close>

theorem tab_events_ignored_when_not_tracking:
  "\<not> isTracking w \<Longrightarrow>
     step now (TabUpdated tid status u) w = w \<and>
     step now (TabCreated tid u) w = w \<and>
     step now (TabActivated tid) w = w"
  by (simp add: onUpdated_def onCreated_def onActivated_def)

theorem tab_events_ignored_when_not_tracking_witness:
  "\<not> isTracking init \<and>
   step 5000 (TabUpdated 1 (Some ''complete'') (Some ''https://docs.example.com'')) init = init \<and>
   step 5000 (TabCreated 1 (Some ''https://docs.example.com'')) init = init \<and>
   step 5000 (TabActivated 1) init = init"
  using tab_events_ignored_when_not_tracking
          [of init 5000 1 "Some ''complete''" "Some ''https://docs.example.com''"]
  by (simp add: init_def)

section \<open>The check of the session around the request\<close>

text \<open>
  Claim C8.  \<open>analyzeScreenshotWithOpenAI\<close> is called with a session identifier.  When no
  session is current, or the identifier of the current session differs from the one passed
  in, it returns before the request is sent and the whole state stays as it is: tracking
  flag and goal, current session, history of the tabs, time of the last capture, and the
  list of calls.  The same comparison is made again when the answer of the scoring service
  arrives; if it fails there, the answer is dropped, nothing is done to a tab and the state
  stays as it is.  The callback of the capture, which calls the function, is covered too.
\<close>

theorem stale_classification_has_no_effect:
  "map_option sessionId (currentSession w) \<noteq> Some sid \<Longrightarrow>
     analyzeScreenshotWithOpenAI b g sid w = w \<and>
     step now (Captured u sid r) w = w \<and>
     step now (Scored sid d) w = w"
  by (auto simp: analyzeScreenshotWithOpenAI_def captured_def scored_def split: option.splits)

theorem stale_classification_has_no_effect_witness:
  "map_option sessionId (currentSession social) \<noteq> Some 9500 \<and>
   analyzeScreenshotWithOpenAI ''data:image/png;base64,AAAA'' ''finish report'' 9500 social =
     social \<and>
   step 12500 (Captured ''https://work.example.com'' 9500 (Some ''data:image/png;base64,AAAA''))
     social = social \<and>
   step 12500 (Scored 9500 (JNum (ascii ''85''))) social = social"
proof -
  have "map_option sessionId (currentSession social) \<noteq> Some 9500"
    by (simp add: social_def init_def)
  from this stale_classification_has_no_effect
    [OF this, of "''data:image/png;base64,AAAA''" "''finish report''" 12500
        "''https://work.example.com''" "Some ''data:image/png;base64,AAAA''"
        "JNum (ascii ''85'')"]
  show ?thesis by simp
qed

section \<open>The threshold of the score\<close>

lemmas parse_defs =
  offTaskScore_def parseInt_def isWhiteSpace_def isDigit_def digitValue_def ascii_def

lemma offTaskScore_falsy: "\<not> truthy d \<Longrightarrow> offTaskScore d = Some n \<Longrightarrow> n \<le> 70"
  by (cases d) (auto simp: parse_defs split: if_splits)

lemma digit_unit:
  "k < 10 \<Longrightarrow>
     isDigit (of_nat (48 + k)) \<and> \<not> isWhiteSpace (of_nat (48 + k)) \<and>
     digitValue (of_nat (48 + k)) = int k \<and>
     (of_nat (48 + k) :: 16 word) \<noteq> 0x2D \<and> (of_nat (48 + k) :: 16 word) \<noteq> 0x2B"
proof -
  assume "k < 10"
  then have "k \<in> {0, 1, 2, 3, 4, 5, 6, 7, 8, 9}" by auto
  then show ?thesis
    by (auto simp: isDigit_def isWhiteSpace_def digitValue_def)
qed

lemma digits_isDigit: "c \<in> set (digits n) \<Longrightarrow> isDigit c"
proof (induction n arbitrary: c rule: digits.induct)
  case (1 n)
  show ?case
  proof (cases "n < 10")
    case True
    with "1.prems" digit_unit [of n] show ?thesis by (simp add: digits.simps [of n])
  next
    case False
    with "1.prems" "1.IH" digit_unit [of "n mod 10"] show ?thesis
      by (auto simp: digits.simps [of n])
  qed
qed

lemma digits_not_Nil: "digits n \<noteq> []"
  by (simp add: digits.simps [of n])

lemma digits_value: "foldl (\<lambda>a c. 10 * a + digitValue c) 0 (digits n) = int n"
proof (induction n rule: digits.induct)
  case (1 n)
  show ?case
  proof (cases "n < 10")
    case True
    with digit_unit [of n] show ?thesis by (simp add: digits.simps [of n])
  next
    case False
    with "1.IH" digit_unit [of "n mod 10"] show ?thesis
      by (simp add: digits.simps [of n] zdiv_int zmod_int)
  qed
qed

lemma isDigit_plain: "isDigit c \<Longrightarrow> \<not> isWhiteSpace c \<and> c \<noteq> 0x2D \<and> c \<noteq> 0x2B"
  by (auto simp: isDigit_def isWhiteSpace_def word_le_nat_alt)

lemma takeWhile_digits: "takeWhile isDigit (digits n) = digits n"
  using digits_isDigit [of _ n] by simp

lemma parseInt_digits: "parseInt (digits n) = Some (int n)"
proof -
  obtain c cs where ds: "digits n = c # cs"
    using digits_not_Nil [of n] by (cases "digits n") auto
  have "isDigit c" using digits_isDigit [of c n] by (simp add: ds)
  from isDigit_plain [OF this] have dw: "dropWhile isWhiteSpace (digits n) = digits n"
    and sign: "hd (digits n) \<noteq> 0x2D" "hd (digits n) \<noteq> 0x2B"
    by (simp_all add: ds)
  show ?thesis
    unfolding parseInt_def Let_def dw
    using sign digits_not_Nil [of n]
    by (simp add: takeWhile_digits digits_value del: takeWhile_eq_all_conv)
qed

lemma parseInt_minus_digits: "parseInt (0x2D # digits n) = Some (- int n)"
proof -
  have "\<not> isWhiteSpace 0x2D" by (simp add: isWhiteSpace_def)
  then have dw: "dropWhile isWhiteSpace (0x2D # digits n) = 0x2D # digits n" by simp
  show ?thesis
    unfolding parseInt_def Let_def dw
    using digits_not_Nil [of n]
    by (simp add: takeWhile_digits digits_value del: takeWhile_eq_all_conv)
qed

text \<open>An integral number up to \<open>2^53\<close> is parsed back to its value.\<close>

lemma offTaskScore_jsInteger: "jsInteger n = Some d \<Longrightarrow> offTaskScore d = Some n"
  using parseInt_digits [of "nat \<bar>n\<bar>"] parseInt_minus_digits [of "nat \<bar>n\<bar>"]
  by (auto simp: jsInteger_def offTaskScore_def ascii_def split: if_splits)

lemma jsInteger_85: "jsInteger 85 = Some (JNum (ascii ''85''))"
  by (simp add: jsInteger_def ascii_def digits.simps)

lemma jsInteger_40: "jsInteger 40 = Some (JNum (ascii ''40''))"
  by (simp add: jsInteger_def ascii_def digits.simps)

lemma handleOffTask_calls: "calls (handleOffTask tid w) \<noteq> calls w"
  by (auto simp: handleOffTask_def split: option.splits)

lemma score_70: "offTaskScore (JStr (ascii ''70'')) = Some 70"
  by (simp add: parse_defs)

lemma score_71: "offTaskScore (JStr (ascii ''71'')) = Some 71"
  by (simp add: parse_defs)

lemma score_words: "offTaskScore (JStr (ascii ''off task'')) = None"
  by (simp add: parse_defs)

lemma score_fraction: "offTaskScore (JNum (ascii ''85.5'')) = Some 85"
  by (simp add: parse_defs)

lemma score_exponent: "offTaskScore (JNum (ascii ''1e+21'')) = Some 1"
  by (simp add: parse_defs)

lemma score_array: "offTaskScore (JArr [JNum (ascii ''85'')]) = Some 85"
  by (simp add: parse_defs)

lemma score_object: "offTaskScore (JObj [(ascii ''score'', JNum (ascii ''85''))]) = None"
  by (simp add: parse_defs)

lemma score_wide_space: "offTaskScore (JStr (0x3000 # ascii ''90 percent'')) = Some 90"
  by (simp add: parse_defs)

text \<open>
  Claim C6.  When the answer of the scoring service arrives and the session it was asked
  for is still the current one, \<open>handleOffTask\<close> is called, with the \<open>tabId\<close> of that
  session, exactly when \<open>parseInt\<close> of the answer is a number above 70.  With a score of
  70 or less, and with an answer in which \<open>parseInt\<close> finds no number, the state stays as
  it is: no script is injected, no tab is redirected or closed.  A call of
  \<open>handleOffTask\<close> always changes the state, so the two cases cannot be confused.  The
  answer is any value \<open>response.json()\<close> can give.  In particular, when the answer is a
  number with an integral value \<open>n\<close> up to \<open>2^53\<close>, \<open>handleOffTask\<close> is called exactly
  when \<open>n\<close> is above 70.
\<close>

theorem intervention_iff_score_above_70:
  "currentSession w = Some s \<Longrightarrow> sessionId s = sid \<Longrightarrow>
     ((\<exists>n. offTaskScore d = Some n \<and> 70 < n) \<longrightarrow>
        step now (Scored sid d) w = handleOffTask (tabId s) w) \<and>
     (\<not> (\<exists>n. offTaskScore d = Some n \<and> 70 < n) \<longrightarrow>
        step now (Scored sid d) w = w) \<and>
     (jsInteger k = Some d \<longrightarrow>
        step now (Scored sid d) w = (if 70 < k then handleOffTask (tabId s) w else w)) \<and>
     handleOffTask (tabId s) w \<noteq> w"
  using offTaskScore_falsy [of d] handleOffTask_calls [of "tabId s" w]
    offTaskScore_jsInteger [of k d]
  by (auto simp: scored_def split: option.splits)

theorem intervention_iff_score_above_70_witness:
  "currentSession social =
     Some \<lparr>tabId = 1, url = ''https://social.example.com'', sessionId = 10000\<rparr> \<and>
   jsInteger 85 = Some (JNum (ascii ''85'')) \<and>
   step 12500 (Scored 10000 (JNum (ascii ''85''))) social = handleOffTask 1 social \<and>
   step 12500 (Scored 10000 (JStr (ascii ''71''))) social = handleOffTask 1 social \<and>
   step 12500 (Scored 10000 (JNum (ascii ''85.5''))) social = handleOffTask 1 social \<and>
   step 12500 (Scored 10000 (JArr [JNum (ascii ''85'')])) social = handleOffTask 1 social \<and>
   step 12500 (Scored 10000 (JStr (0x3000 # ascii ''90 percent''))) social =
     handleOffTask 1 social \<and>
   jsInteger 40 = Some (JNum (ascii ''40'')) \<and>
   step 12500 (Scored 10000 (JNum (ascii ''40''))) social = social \<and>
   step 12500 (Scored 10000 (JStr (ascii ''70''))) social = social \<and>
   step 12500 (Scored 10000 (JStr (ascii ''off task''))) social = social \<and>
   step 12500 (Scored 10000 (JNum (ascii ''1e+21''))) social = social \<and>
   step 12500 (Scored 10000 (JObj [(ascii ''score'', JNum (ascii ''85''))])) social = social \<and>
   handleOffTask 1 social \<noteq> social"
proof -
  let ?s = "\<lparr>tabId = 1, url = ''https://social.example.com'', sessionId = 10000\<rparr>"
  have cur: "currentSession social = Some ?s" by (simp add: social_def init_def)
  have sid: "sessionId ?s = 10000" by simp
  note main = intervention_iff_score_above_70 [OF cur sid]
  from main [of "JNum (ascii ''85'')" 12500 85] jsInteger_85
  have a1: "step 12500 (Scored 10000 (JNum (ascii ''85''))) social = handleOffTask 1 social"
    and e: "handleOffTask 1 social \<noteq> social" by simp_all
  from main [of "JStr (ascii ''71'')" 12500] score_71
  have a2: "step 12500 (Scored 10000 (JStr (ascii ''71''))) social = handleOffTask 1 social"
    by simp
  from main [of "JNum (ascii ''85.5'')" 12500] score_fraction
  have a3: "step 12500 (Scored 10000 (JNum (ascii ''85.5''))) social = handleOffTask 1 social"
    by simp
  from main [of "JArr [JNum (ascii ''85'')]" 12500] score_array
  have a4: "step 12500 (Scored 10000 (JArr [JNum (ascii ''85'')])) social =
              handleOffTask 1 social"
    by simp
  from main [of "JStr (0x3000 # ascii ''90 percent'')" 12500] score_wide_space
  have a5: "step 12500 (Scored 10000 (JStr (0x3000 # ascii ''90 percent''))) social =
              handleOffTask 1 social"
    by simp
  from main [of "JNum (ascii ''40'')" 12500 40] jsInteger_40
  have b1: "step 12500 (Scored 10000 (JNum (ascii ''40''))) social = social" by simp
  from main [of "JStr (ascii ''70'')" 12500] score_70
  have b2: "step 12500 (Scored 10000 (JStr (ascii ''70''))) social = social" by simp
  from main [of "JStr (ascii ''off task'')" 12500] score_words
  have b3: "step 12500 (Scored 10000 (JStr (ascii ''off task''))) social = social" by simp
  from main [of "JNum (ascii ''1e+21'')" 12500] score_exponent
  have b4: "step 12500 (Scored 10000 (JNum (ascii ''1e+21''))) social = social" by simp
  from main [of "JObj [(ascii ''score'', JNum (ascii ''85''))]" 12500] score_object
  have b5: "step 12500 (Scored 10000 (JObj [(ascii ''score'', JNum (ascii ''85''))])) social =
              social"
    by simp
  from cur a1 a2 a3 a4 a5 b1 b2 b3 b4 b5 e jsInteger_85 jsInteger_40 show ?thesis by simp
qed

section \<open>Redirection or closure\<close>

lemma second_to_last: "2 \<le> length h \<Longrightarrow> h ! (length h - 2) = last (butlast h)"
proof (cases h rule: rev_cases)
  case Nil
  assume "2 \<le> length h"
  with Nil show ?thesis by simp
next
  case (snoc ys y)
  assume len: "2 \<le> length h"
  show ?thesis
  proof (cases ys rule: rev_cases)
    case Nil
    with snoc len show ?thesis by simp
  next
    case (snoc zs z)
    with \<open>h = ys @ [y]\<close> show ?thesis by (simp add: nth_append butlast_append)
  qed
qed

text \<open>
  Claim C5.  \<open>handleOffTask\<close> on a tab whose history has two entries or more injects the
  image into the tab and sets a timer of 2000 ms; when the timer expires the tab is sent to
  the entry before the last one of the history, as it was when \<open>handleOffTask\<close> ran, and
  no call closes the tab.  On a tab with no history, or with a history of one entry or
  none, it injects the same image and sets a timer of 2000 ms that closes the tab, and no
  call redirects it.  In both cases nothing else in the state changes.
\<close>

theorem off_task_redirects_or_closes:
  "(tabHistory w tid = Some h \<and> 2 \<le> length h \<longrightarrow>
      handleOffTask tid w =
        w\<lparr>calls := calls w @ [ExecuteScript tid firstGifSrc,
                               SetTimeout (RedirectTimeout tid (last (butlast h))) 2000]\<rparr> \<and>
      step now (TimeoutFires (RedirectTimeout tid (last (butlast h)))) w' =
        w'\<lparr>calls := calls w' @ [TabsUpdate tid (last (butlast h))]\<rparr>) \<and>
   (tabHistory w tid = None \<or> (tabHistory w tid = Some h \<and> length h \<le> 1) \<longrightarrow>
      handleOffTask tid w =
        w\<lparr>calls := calls w @ [ExecuteScript tid firstGifSrc,
                               SetTimeout (CloseTimeout tid) 2000]\<rparr> \<and>
      step now (TimeoutFires (CloseTimeout tid)) w' =
        w'\<lparr>calls := calls w' @ [TabsRemove tid]\<rparr>)"
  using second_to_last [of h] by (auto simp: handleOffTask_def)

theorem off_task_redirects_or_closes_witness:
  "tabHistory social 1 = Some [''https://work.example.com'', ''https://social.example.com''] \<and>
   calls (handleOffTask 1 social) =
     [ExecuteScript 1 firstGifSrc,
      SetTimeout (RedirectTimeout 1 ''https://work.example.com'') 2000] \<and>
   calls (step 14500 (TimeoutFires (RedirectTimeout 1 ''https://work.example.com''))
            (handleOffTask 1 social)) =
     [ExecuteScript 1 firstGifSrc,
      SetTimeout (RedirectTimeout 1 ''https://work.example.com'') 2000,
      TabsUpdate 1 ''https://work.example.com''] \<and>
   tabHistory fresh 2 = Some [''https://social.example.com''] \<and>
   calls (handleOffTask 2 fresh) =
     [ExecuteScript 2 firstGifSrc, SetTimeout (CloseTimeout 2) 2000] \<and>
   calls (step 14500 (TimeoutFires (CloseTimeout 2)) (handleOffTask 2 fresh)) =
     [ExecuteScript 2 firstGifSrc, SetTimeout (CloseTimeout 2) 2000, TabsRemove 2] \<and>
   tabHistory fresh 3 = None \<and>
   calls (handleOffTask 3 fresh) =
     [ExecuteScript 3 firstGifSrc, SetTimeout (CloseTimeout 3) 2000]"
proof -
  have h1: "tabHistory social 1 =
              Some [''https://work.example.com'', ''https://social.example.com'']"
    by (simp add: social_def init_def)
  have h2: "tabHistory fresh 2 = Some [''https://social.example.com'']"
    by (simp add: fresh_def init_def)
  have h3: "tabHistory fresh 3 = None"
    by (simp add: fresh_def init_def)
  have c1: "calls social = []" and c2: "calls fresh = []"
    by (simp_all add: social_def fresh_def init_def)
  from off_task_redirects_or_closes
         [of social 1 "[''https://work.example.com'', ''https://social.example.com'']"
             14500 "handleOffTask 1 social"] h1 c1
  have a: "calls (handleOffTask 1 social) =
             [ExecuteScript 1 firstGifSrc,
              SetTimeout (RedirectTimeout 1 ''https://work.example.com'') 2000]"
    and b: "calls (step 14500 (TimeoutFires (RedirectTimeout 1 ''https://work.example.com''))
                    (handleOffTask 1 social)) =
             [ExecuteScript 1 firstGifSrc,
              SetTimeout (RedirectTimeout 1 ''https://work.example.com'') 2000,
              TabsUpdate 1 ''https://work.example.com'']"
    by simp_all
  from off_task_redirects_or_closes
         [of fresh 2 "[''https://social.example.com'']" 14500 "handleOffTask 2 fresh"] h2 c2
  have c: "calls (handleOffTask 2 fresh) =
             [ExecuteScript 2 firstGifSrc, SetTimeout (CloseTimeout 2) 2000]"
    and d: "calls (step 14500 (TimeoutFires (CloseTimeout 2)) (handleOffTask 2 fresh)) =
             [ExecuteScript 2 firstGifSrc, SetTimeout (CloseTimeout 2) 2000, TabsRemove 2]"
    by simp_all
  from off_task_redirects_or_closes [of fresh 3 "[]" 14500 fresh] h3 c2
  have e: "calls (handleOffTask 3 fresh) =
             [ExecuteScript 3 firstGifSrc, SetTimeout (CloseTimeout 3) 2000]"
    by simp
  from h1 h2 h3 a b c d e show ?thesis by simp
qed

section \<open>One current session\<close>

text \<open>
  Claim C3.  The script holds the current session in one variable, so at every point of
  every run at most one session is current.  \<open>startSession\<close> begins with \<open>endSession\<close>,
  which leaves no session current; what \<open>startSession\<close> does is the same whether or not a
  session was current before, and after it the current session is the new one, or none
  when the address is refused.  The session that was current before is never kept.
\<close>

theorem at_most_one_current_session:
  "currentSession (endSession w) = None \<and>
   startSession now tid u w = startSession now tid u (endSession w) \<and>
   currentSession (startSession now tid u w) =
     (if restricted u then None
      else map_option (\<lambda>s. \<lparr>tabId = tid, url = s, sessionId = now\<rparr>) u) \<and>
   card (set_option (currentSession (run es w))) \<le> 1"
  by (auto simp: startSession_def endSession_def Let_def card_le_Suc0_iff_eq
           split: option.splits)

section \<open>The throttle of the captures\<close>

lemma step_capture:
  "(filter isCapture (calls (step now e w)) = filter isCapture (calls w) \<and>
      lastCaptureTime (step now e w) = lastCaptureTime w) \<or>
   (length (filter isCapture (calls (step now e w))) > length (filter isCapture (calls w)) \<and>
      lastCaptureTime (step now e w) = now \<and> 1000 \<le> now - lastCaptureTime w)"
proof (cases e)
  case (Message m)
  then show ?thesis by (cases m) (simp_all add: Let_def)
next
  case (TimeoutFires c)
  then show ?thesis
    by (cases c) (auto simp: captureTimeout_def takeScreenshot_def split: option.splits)
qed (auto simp: onUpdated_def onCreated_def onActivated_def tabGot_def flyOwl_def captured_def
      scored_def analyzeScreenshotWithOpenAI_def Let_def split: option.splits)

lemma captureTimes_spaced:
  "successively (\<lambda>a b. 1000 \<le> b - a) (lastCaptureTime w # captureTimes es w)"
proof (induction es arbitrary: w)
  case Nil
  then show ?case by simp
next
  case (Cons p es)
  obtain now e where p: "p = (now, e)" by (cases p)
  from step_capture [of now e w] Cons.IH [of "step now e w"] show ?case
    unfolding p by (auto simp: successively_Cons)
qed

lemma captureTimes_churn: "captureTimes churn init = [12000, 13000]"
  by (simp add: churn_def init_def onUpdated_def flyOwl_def startSession_def endSession_def
        updateTabHistory_def restricted_def captureTimeout_def takeScreenshot_def Let_def)

text \<open>
  Claim C7.  Take two attempts to capture, at the clock readings \<open>t1 < t2\<close>, the first of
  which is granted (it makes the call of the capture).  If \<open>t2 - t1 < 1000\<close> the second is
  denied: it changes nothing, and \<open>lastCaptureTime\<close> stays at \<open>t1\<close>.  If \<open>t2 - t1\<close> is
  1000 or more the second is granted too: it makes the call and sets \<open>lastCaptureTime\<close>
  to \<open>t2\<close>.  Hence in every run, from every state, the clock readings of two captures that
  follow each other are 1000 ms apart or more.
\<close>

theorem captures_at_least_1000ms_apart:
  assumes "calls (takeScreenshot t1 u1 s1 w) \<noteq> calls w" and "t1 < t2"
  shows "(t2 - t1 < 1000 \<longrightarrow>
            takeScreenshot t2 u2 s2 (takeScreenshot t1 u1 s1 w) = takeScreenshot t1 u1 s1 w) \<and>
         (1000 \<le> t2 - t1 \<longrightarrow>
            takeScreenshot t2 u2 s2 (takeScreenshot t1 u1 s1 w) =
              (takeScreenshot t1 u1 s1 w)
                \<lparr>lastCaptureTime := t2,
                 calls := calls (takeScreenshot t1 u1 s1 w) @ [CaptureVisibleTab u2 s2]\<rparr>) \<and>
         successively (\<lambda>a b. 1000 \<le> b - a) (captureTimes es w')"
proof -
  from assms(1) have "\<not> t1 - lastCaptureTime w < 1000"
    by (auto simp: takeScreenshot_def split: if_splits)
  then have "lastCaptureTime (takeScreenshot t1 u1 s1 w) = t1"
    by (simp add: takeScreenshot_def)
  then have "takeScreenshot t2 u2 s2 (takeScreenshot t1 u1 s1 w) =
      (if t2 - t1 < 1000 then takeScreenshot t1 u1 s1 w
       else (takeScreenshot t1 u1 s1 w)
                \<lparr>lastCaptureTime := t2,
                 calls := calls (takeScreenshot t1 u1 s1 w) @ [CaptureVisibleTab u2 s2]\<rparr>)"
    by (simp add: takeScreenshot_def [of t2])
  moreover from captureTimes_spaced [of w' es]
  have "successively (\<lambda>a b. 1000 \<le> b - a) (captureTimes es w')"
    by (auto simp: successively_Cons)
  ultimately show ?thesis by simp
qed

theorem captures_at_least_1000ms_apart_witness:
  "calls (takeScreenshot 12000 ''https://a.example'' 10000 init) \<noteq> calls init \<and>
   (12000::int) < 12999 \<and>
   takeScreenshot 12999 ''https://b.example'' 10999
     (takeScreenshot 12000 ''https://a.example'' 10000 init) =
     takeScreenshot 12000 ''https://a.example'' 10000 init \<and>
   (12000::int) < 13000 \<and>
   lastCaptureTime (takeScreenshot 13000 ''https://b.example'' 11000
     (takeScreenshot 12000 ''https://a.example'' 10000 init)) = 13000 \<and>
   calls (takeScreenshot 13000 ''https://b.example'' 11000
     (takeScreenshot 12000 ''https://a.example'' 10000 init)) =
     [CaptureVisibleTab ''https://a.example'' 10000, CaptureVisibleTab ''https://b.example'' 11000] \<and>
   captureTimes churn init = [12000, 13000] \<and>
   successively (\<lambda>a b. 1000 \<le> b - a) (captureTimes churn init)"
proof -
  have a: "calls (takeScreenshot 12000 ''https://a.example'' 10000 init) \<noteq> calls init"
    by (simp add: takeScreenshot_def init_def)
  have b: "(12000::int) < 12999" and c: "(12000::int) < 13000" by simp_all
  have d: "calls (takeScreenshot 12000 ''https://a.example'' 10000 init) =
             [CaptureVisibleTab ''https://a.example'' 10000]"
    by (simp add: takeScreenshot_def init_def)
  from captures_at_least_1000ms_apart [OF a b, of "''https://b.example''" 10999 churn init]
  have e: "takeScreenshot 12999 ''https://b.example'' 10999
             (takeScreenshot 12000 ''https://a.example'' 10000 init) =
           takeScreenshot 12000 ''https://a.example'' 10000 init"
    and h: "successively (\<lambda>a b. 1000 \<le> b - a) (captureTimes churn init)"
    by simp_all
  from captures_at_least_1000ms_apart [OF a c, of "''https://b.example''" 11000 "[]" init] d
  have f: "lastCaptureTime (takeScreenshot 13000 ''https://b.example'' 11000
             (takeScreenshot 12000 ''https://a.example'' 10000 init)) = 13000"
    and g: "calls (takeScreenshot 13000 ''https://b.example'' 11000
             (takeScreenshot 12000 ''https://a.example'' 10000 init)) =
           [CaptureVisibleTab ''https://a.example'' 10000,
            CaptureVisibleTab ''https://b.example'' 11000]"
    by simp_all
  from a b c e f g h captureTimes_churn show ?thesis by simp
qed

section \<open>Stopping the tracking\<close>

lemma step_idle:
  "currentSession w = None \<Longrightarrow>
   filter isFetch (calls (step now e w)) = filter isFetch (calls w) \<and>
   filter isCapture (calls (step now e w)) = filter isCapture (calls w)"
proof (cases e)
  case (Message m)
  then show ?thesis by (cases m) (simp_all add: Let_def)
next
  case (TimeoutFires c)
  assume "currentSession w = None"
  with TimeoutFires show ?thesis
    by (cases c) (auto simp: captureTimeout_def)
qed (auto simp: onUpdated_def onCreated_def onActivated_def tabGot_def flyOwl_def captured_def
      scored_def analyzeScreenshotWithOpenAI_def Let_def split: option.splits)

lemma idle_run:
  "idle es w \<Longrightarrow>
     filter isFetch (calls (run es w)) = filter isFetch (calls w) \<and>
     filter isCapture (calls (run es w)) = filter isCapture (calls w) \<and>
     currentSession (run es w) = None"
proof (induction es arbitrary: w)
  case Nil
  then show ?case by simp
next
  case (Cons p es)
  obtain now e where p: "p = (now, e)" by (cases p)
  from Cons.prems have "currentSession w = None" and "idle es (step now e w)"
    unfolding p by simp_all
  with step_idle [of w now e] Cons.IH [of "step now e w"] show ?case
    unfolding p by simp
qed

lemma scheduled_calls:
  "calls scheduled =
     [SendResponse (StartAck ''finish report''),
      SetTimeout (CaptureTimeout 1 ''https://docs.example.com'') 2000, SendMessage 1]"
  by (simp add: scheduled_def init_def onUpdated_def flyOwl_def startSession_def endSession_def
        updateTabHistory_def restricted_def Let_def)

text \<open>
  Claim C9.  The handler of the message \<open>stopTracking\<close> leaves no session current.  In
  every run that follows it in which no session becomes current, no request is sent to the
  scoring service and no capture is made; the timer of a capture scheduled before the stop,
  when it expires in such a run, changes nothing at all.
\<close>

theorem stop_cancels_scheduled_capture:
  "currentSession (step now (Message StopTracking) w) = None \<and>
   (idle es (step now (Message StopTracking) w) \<longrightarrow>
      filter isFetch (calls (run es (step now (Message StopTracking) w))) =
        filter isFetch (calls w) \<and>
      filter isCapture (calls (run es (step now (Message StopTracking) w))) =
        filter isCapture (calls w) \<and>
      step now' (TimeoutFires (CaptureTimeout tid u))
          (run es (step now (Message StopTracking) w)) =
        run es (step now (Message StopTracking) w))"
proof -
  let ?w = "step now (Message StopTracking) w"
  have a: "currentSession ?w = None" by (simp add: Let_def)
  have b: "filter isFetch (calls ?w) = filter isFetch (calls w)"
    and c: "filter isCapture (calls ?w) = filter isCapture (calls w)"
    by (simp_all add: Let_def)
  have "step now' (TimeoutFires (CaptureTimeout tid u)) (run es ?w) = run es ?w" if "idle es ?w"
    using idle_run [OF that] by (simp add: captureTimeout_def)
  with idle_run [of es ?w] a b c show ?thesis by simp
qed

theorem stop_cancels_scheduled_capture_witness:
  "calls scheduled =
     [SendResponse (StartAck ''finish report''),
      SetTimeout (CaptureTimeout 1 ''https://docs.example.com'') 2000, SendMessage 1] \<and>
   idle [(12000, TimeoutFires (CaptureTimeout 1 ''https://docs.example.com''))]
     (step 11000 (Message StopTracking) scheduled) \<and>
   filter isFetch
     (calls (run [(12000, TimeoutFires (CaptureTimeout 1 ''https://docs.example.com''))]
        (step 11000 (Message StopTracking) scheduled))) = [] \<and>
   filter isCapture
     (calls (run [(12000, TimeoutFires (CaptureTimeout 1 ''https://docs.example.com''))]
        (step 11000 (Message StopTracking) scheduled))) = []"
proof -
  let ?es = "[(12000, TimeoutFires (CaptureTimeout 1 ''https://docs.example.com''))]"
  have "currentSession (step 11000 (Message StopTracking) scheduled) = None"
    by (simp add: Let_def)
  then have i: "idle ?es (step 11000 (Message StopTracking) scheduled)"
    by (simp add: captureTimeout_def)
  from stop_cancels_scheduled_capture [of 11000 scheduled ?es] i scheduled_calls
  show ?thesis by simp
qed

section \<open>The history of the tabs\<close>

lemma updateTabHistory_ok: "ledgerOk w \<Longrightarrow> ledgerOk (updateTabHistory tid u w)"
  by (auto simp: ledgerOk_def updateTabHistory_def Let_def distinct_adj_append_iff
      split: option.splits if_splits)

lemma recordVisits_ok: "ledgerOk w \<Longrightarrow> ledgerOk (recordVisits vs w)"
  by (induction vs arbitrary: w) (auto simp: updateTabHistory_ok)

lemma step_ok: "ledgerOk w \<Longrightarrow> ledgerOk (step now e w)"
proof (cases e)
  case (Message m)
  assume "ledgerOk w"
  with Message show ?thesis by (cases m) (simp_all add: Let_def ledgerOk_def)
next
  case (TimeoutFires c)
  assume "ledgerOk w"
  with TimeoutFires show ?thesis
    by (cases c)
       (auto simp: captureTimeout_def takeScreenshot_def ledgerOk_def split: option.splits)
next
  case (TabUpdated tid st u)
  assume ok: "ledgerOk w"
  from updateTabHistory_ok [OF ok, of tid u] TabUpdated ok show ?thesis
    by (simp add: onUpdated_def flyOwl_def ledgerOk_def)
next
  case (TabCreated tid u)
  assume ok: "ledgerOk w"
  from updateTabHistory_ok [OF ok, of tid u]
    updateTabHistory_ok [OF ok, of tid "Some ''about:blank''"] TabCreated ok
  show ?thesis
    by (simp add: onCreated_def flyOwl_def ledgerOk_def Let_def)
next
  case (TabGot tid tab)
  assume ok: "ledgerOk w"
  show ?thesis
  proof (cases tab)
    case None
    with TabGot ok show ?thesis by (simp add: tabGot_def)
  next
    case (Some u)
    with updateTabHistory_ok [OF ok, of tid u] TabGot show ?thesis
      by (simp add: tabGot_def flyOwl_def ledgerOk_def)
  qed
qed (auto simp: onActivated_def captured_def scored_def analyzeScreenshotWithOpenAI_def
       ledgerOk_def split: option.splits)

lemma run_ok: "ledgerOk w \<Longrightarrow> ledgerOk (run es w)"
  by (induction es arbitrary: w) (auto simp: step_ok)

lemma visits_tab1:
  "tabHistory (recordVisits visits init) 1 =
     Some [''https://a.example'', ''https://b.example'', ''https://a.example'']"
  by (simp add: visits_def init_def updateTabHistory_def restricted_def Let_def)

text \<open>
  Claim C4.  The history is empty when the script starts.  After any sequence of calls of
  \<open>updateTabHistory\<close>, with any tabs and addresses, no tab's history has two equal
  entries next to each other; this holds from every state whose histories have that
  property, and also after any run of events.  An address that is missing, empty or
  restricted leaves the state as it is, and so does an address equal to the last entry of
  the tab's history.
\<close>

theorem history_has_no_consecutive_duplicates:
  "ledgerOk init \<and>
   (ledgerOk w \<longrightarrow> ledgerOk (recordVisits vs w) \<and> ledgerOk (run es w)) \<and>
   (restricted u \<longrightarrow> updateTabHistory tid u w = w) \<and>
   (tabHistory w tid = Some h \<and> h \<noteq> [] \<and> last h = s \<longrightarrow>
      updateTabHistory tid (Some s) w = w)"
proof -
  have "ledgerOk init" by (simp add: ledgerOk_def init_def)
  moreover have "updateTabHistory tid u w = w" if "restricted u"
    using that by (simp add: updateTabHistory_def)
  moreover have "updateTabHistory tid (Some s) w = w"
    if "tabHistory w tid = Some h" "h \<noteq> []" "last h = s"
    using that by (auto simp: updateTabHistory_def Let_def)
  ultimately show ?thesis
    using recordVisits_ok [of w vs] run_ok [of w es] by blast
qed

theorem history_has_no_consecutive_duplicates_witness:
  "ledgerOk init \<and> ledgerOk (recordVisits visits init) \<and> ledgerOk (run churn init) \<and>
   tabHistory (recordVisits visits init) 1 =
     Some [''https://a.example'', ''https://b.example'', ''https://a.example''] \<and>
   restricted (Some ''chrome://settings'') \<and>
   updateTabHistory 1 (Some ''chrome://settings'') (recordVisits visits init) =
     recordVisits visits init \<and>
   updateTabHistory 1 (Some ''https://a.example'') (recordVisits visits init) =
     recordVisits visits init"
proof -
  note main = history_has_no_consecutive_duplicates
  from main [of init visits churn None 1 "[]" "[]"]
  have a: "ledgerOk init" and b: "ledgerOk (recordVisits visits init)"
    and b': "ledgerOk (run churn init)" by simp_all
  have r: "restricted (Some ''chrome://settings'')" by (simp add: restricted_def)
  from main [of "recordVisits visits init" "[]" "[]" "Some ''chrome://settings''" 1
                "[''https://a.example'', ''https://b.example'', ''https://a.example'']"
                "''https://a.example''"] r visits_tab1
  have c: "updateTabHistory 1 (Some ''chrome://settings'') (recordVisits visits init) =
             recordVisits visits init"
    and d: "updateTabHistory 1 (Some ''https://a.example'') (recordVisits visits init) =
             recordVisits visits init"
    by simp_all
  from a b b' c d r visits_tab1 show ?thesis by simp
qed

section \<open>The identifier of a session\<close>

lemma step_session:
  "currentSession (step now e w) = None \<or> currentSession (step now e w) = currentSession w \<or>
   (\<exists>s. currentSession (step now e w) = Some s \<and> sessionId s = now)"
proof (cases e)
  case (Message m)
  then show ?thesis by (cases m) (simp_all add: Let_def)
next
  case (TimeoutFires c)
  then show ?thesis
    by (cases c) (auto simp: captureTimeout_def takeScreenshot_def split: option.splits)
qed (auto simp: onUpdated_def onCreated_def onActivated_def tabGot_def flyOwl_def captured_def
      scored_def analyzeScreenshotWithOpenAI_def startSession_current Let_def
      split: option.splits)

lemma seen_origin:
  "s \<in> set (sessionsSeen es w) \<Longrightarrow> currentSession w = Some s \<or> sessionId s \<in> fst ` set es"
proof (induction es arbitrary: w)
  case Nil
  then show ?case by simp
next
  case (Cons p es)
  obtain now e where p: "p = (now, e)" by (cases p)
  let ?w = "step now e w"
  from Cons.prems have "currentSession ?w = Some s \<or> s \<in> set (sessionsSeen es ?w)"
    unfolding p by (auto split: option.splits)
  with Cons.IH [of ?w] have "currentSession ?w = Some s \<or> sessionId s \<in> fst ` set es"
    by blast
  with step_session [of now e w] show ?case
    unfolding p by auto
qed

text \<open>
  The identifiers of the sessions seen in a run follow the readings of the clock, for any
  order \<open>r\<close> in which the readings are sorted.
\<close>

lemma seen_related:
  assumes "sorted_wrt r (map fst es)"
    and "\<And>s n. currentSession w = Some s \<Longrightarrow> n \<in> fst ` set es \<Longrightarrow> r (sessionId s) n"
  shows "sorted_wrt (\<lambda>a b. r (sessionId a) (sessionId b) \<or> a = b) (sessionsSeen es w) \<and>
         (\<forall>s x. currentSession w = Some s \<longrightarrow> x \<in> set (sessionsSeen es w) \<longrightarrow>
                  r (sessionId s) (sessionId x) \<or> s = x)"
  using assms
proof (induction es arbitrary: w)
  case Nil
  then show ?case by simp
next
  case (Cons p es)
  obtain now e where p: "p = (now, e)" by (cases p)
  let ?w = "step now e w"
  from Cons.prems(1) have later: "\<And>n. n \<in> fst ` set es \<Longrightarrow> r now n"
    and srt: "sorted_wrt r (map fst es)"
    unfolding p by auto
  have cur: "r (sessionId s) now" if "currentSession w = Some s" for s
    using Cons.prems(2) [OF that, of now] unfolding p by simp
  have cur2: "r (sessionId s) n" if "currentSession w = Some s" "n \<in> fst ` set es" for s n
    using Cons.prems(2) [OF that(1), of n] that(2) unfolding p by simp
  have pre: "r (sessionId s) n"
    if s: "currentSession ?w = Some s" and n: "n \<in> fst ` set es" for s n
  proof -
    from step_session [of now e w] s
    have "currentSession w = Some s \<or> sessionId s = now" by auto
    with later [OF n] cur2 n show ?thesis by auto
  qed
  from Cons.IH [OF srt pre]
  have ih1: "sorted_wrt (\<lambda>a b. r (sessionId a) (sessionId b) \<or> a = b) (sessionsSeen es ?w)"
    and ih2: "\<And>s x. currentSession ?w = Some s \<Longrightarrow> x \<in> set (sessionsSeen es ?w) \<Longrightarrow>
                r (sessionId s) (sessionId x) \<or> s = x"
    by blast+
  have a: "sorted_wrt (\<lambda>a b. r (sessionId a) (sessionId b) \<or> a = b) (sessionsSeen (p # es) w)"
    unfolding p using ih1 ih2 by (auto split: option.splits)
  have b: "r (sessionId s) (sessionId x) \<or> s = x"
    if s: "currentSession w = Some s" and x: "x \<in> set (sessionsSeen (p # es) w)" for s x
  proof -
    from x have "currentSession ?w = Some x \<or> x \<in> set (sessionsSeen es ?w)"
      unfolding p by (auto split: option.splits)
    with seen_origin [of x es ?w]
    have "currentSession ?w = Some x \<or> sessionId x \<in> fst ` set es"
      by blast
    then show ?thesis
    proof
      assume "currentSession ?w = Some x"
      with step_session [of now e w] s cur [OF s] show ?thesis by auto
    next
      assume "sessionId x \<in> fst ` set es"
      with cur2 [OF s] show ?thesis by auto
    qed
  qed
  from a b show ?case by blast
qed

lemma sorted_wrt_either:
  "sorted_wrt R xs \<Longrightarrow> a \<in> set xs \<Longrightarrow> b \<in> set xs \<Longrightarrow> a = b \<or> R a b \<or> R b a"
  by (induction xs) auto

lemma sessionsSeen_churn:
  "sessionsSeen churn init =
     [\<lparr>tabId = 1, url = ''https://a.example'', sessionId = 10000\<rparr>,
      \<lparr>tabId = 1, url = ''https://b.example'', sessionId = 11000\<rparr>,
      \<lparr>tabId = 1, url = ''https://b.example'', sessionId = 11000\<rparr>,
      \<lparr>tabId = 1, url = ''https://b.example'', sessionId = 11000\<rparr>]"
  by (simp add: churn_def init_def onUpdated_def flyOwl_def startSession_def endSession_def
        updateTabHistory_def restricted_def captureTimeout_def takeScreenshot_def Let_def)

text \<open>
  Claim C2, as amended.  The \<open>sessionId\<close> of the session an accepted call of
  \<open>startSession\<close> creates is the reading of the clock at the call.  In a run that starts
  with no session, when the readings of the clock at the events do not decrease, the
  identifiers of the sessions do not decrease in the order of creation; when the readings
  strictly increase, two sessions with the same identifier are the same session.
\<close>

theorem sessionId_is_clock_reading:
  "map_option sessionId (currentSession (startSession now tid u w)) =
     (if restricted u then None else Some now) \<and>
   (sorted (map fst es) \<and> currentSession w = None \<longrightarrow>
      sorted (map sessionId (sessionsSeen es w))) \<and>
   (sorted_wrt (<) (map fst es) \<and> currentSession w = None \<longrightarrow>
      (\<forall>a \<in> set (sessionsSeen es w). \<forall>b \<in> set (sessionsSeen es w).
          sessionId a = sessionId b \<longrightarrow> a = b))"
proof -
  have one: "map_option sessionId (currentSession (startSession now tid u w)) =
     (if restricted u then None else Some now)"
    by (cases u) (simp_all add: startSession_current restricted_def)
  have two: "sorted (map sessionId (sessionsSeen es w))"
    if "sorted (map fst es)" "currentSession w = None"
  proof -
    from that have "sorted_wrt (\<lambda>a b. sessionId a \<le> sessionId b \<or> a = b) (sessionsSeen es w)"
      using seen_related [of "(\<le>)" es w] by simp
    then have "sorted_wrt (\<lambda>a b. sessionId a \<le> sessionId b) (sessionsSeen es w)"
      by (rule sorted_wrt_mono_rel [rotated]) auto
    then show ?thesis by (simp add: sorted_map)
  qed
  have three: "a = b"
    if "sorted_wrt (<) (map fst es)" "currentSession w = None"
      "a \<in> set (sessionsSeen es w)" "b \<in> set (sessionsSeen es w)" "sessionId a = sessionId b"
    for a b
  proof -
    from that(1,2)
    have "sorted_wrt (\<lambda>a b. sessionId a < sessionId b \<or> a = b) (sessionsSeen es w)"
      using seen_related [of "(<)" es w] by simp
    from sorted_wrt_either [OF this that(3,4)] that(5) show ?thesis by auto
  qed
  from one two three show ?thesis by blast
qed

theorem sessionId_is_clock_reading_witness:
  "sorted_wrt (<) (map fst churn) \<and> sorted (map fst churn) \<and> currentSession init = None \<and>
   map_option sessionId (currentSession (startSession 10000 1 (Some ''https://a.example'') init)) =
     Some 10000 \<and>
   sorted (map sessionId (sessionsSeen churn init)) \<and>
   inj_on sessionId (set (sessionsSeen churn init))"
proof -
  have a: "sorted_wrt (<) (map fst churn)" and b: "sorted (map fst churn)"
    by (simp_all add: churn_def)
  have c: "currentSession init = None" by (simp add: init_def)
  have d: "\<not> restricted (Some ''https://a.example'')" by (simp add: restricted_def)
  note main = sessionId_is_clock_reading [of 10000 1 "Some ''https://a.example''" init churn]
  from main d
  have e: "map_option sessionId
             (currentSession (startSession 10000 1 (Some ''https://a.example'') init)) =
           Some 10000"
    by simp
  from main a b c have f: "sorted (map sessionId (sessionsSeen churn init))"
    and g: "inj_on sessionId (set (sessionsSeen churn init))"
    by (simp_all add: inj_on_def)
  from a b c e f g show ?thesis by simp
qed

text \<open>
  The claim as it was written fails when the clock gives the same reading to two handlers:
  tab 1 finishes loading and tab 2 is created within one millisecond, and the two sessions,
  which differ, have the same \<open>sessionId\<close>.
\<close>

theorem sessionId_shared_within_one_millisecond:
  "sessionsSeen
     [(9000, Message (StartTracking ''finish report'')),
      (10000, TabUpdated 1 (Some ''complete'') (Some ''https://a.example'')),
      (10000, TabCreated 2 (Some ''https://b.example''))] init =
     [\<lparr>tabId = 1, url = ''https://a.example'', sessionId = 10000\<rparr>,
      \<lparr>tabId = 2, url = ''https://b.example'', sessionId = 10000\<rparr>] \<and>
   \<lparr>tabId = 1, url = ''https://a.example'', sessionId = 10000\<rparr> \<noteq>
     \<lparr>tabId = 2, url = ''https://b.example'', sessionId = 10000\<rparr> \<and>
   sessionId \<lparr>tabId = 1, url = ''https://a.example'', sessionId = 10000\<rparr> =
     sessionId \<lparr>tabId = 2, url = ''https://b.example'', sessionId = 10000\<rparr> \<and>
   currentSession (startSession 10000 2 (Some ''https://b.example'')
      (startSession 10000 1 (Some ''https://a.example'') init)) =
     Some \<lparr>tabId = 2, url = ''https://b.example'', sessionId = 10000\<rparr>"
  by (simp add: init_def onUpdated_def onCreated_def flyOwl_def startSession_def endSession_def
        updateTabHistory_def restricted_def Let_def)

section \<open>The timer of a capture\<close>

text \<open>
  The function the timer runs looks at the tab of the current session only.  When no
  session is current, or the current session is on another tab, nothing happens.
\<close>

lemma captureTimeout_dropped:
  "map_option tabId (currentSession w) \<noteq> Some tid \<Longrightarrow>
     step now (TimeoutFires (CaptureTimeout tid u)) w = w"
  by (auto simp: captureTimeout_def split: option.splits)

text \<open>
  Claim C1 says that the capture scheduled for a session does not fire once another
  session is current, also on the same tab.  The script does otherwise.  Tab 1 loads page a
  at 10000 (session 10000) and page b at 11000 (session 11000).  At 12000 the timer of the
  first session expires; the current session is the second one, on the same tab, so the
  test passes and \<open>captureVisibleTab\<close> is called, for the address of the first session
  and with the identifier of the second one.
\<close>

theorem stale_capture_fires_on_same_tab:
  "currentSession
     (run [(9000, Message (StartTracking ''finish report'')),
           (10000, TabUpdated 1 (Some ''complete'') (Some ''https://a.example''))] init) =
     Some \<lparr>tabId = 1, url = ''https://a.example'', sessionId = 10000\<rparr> \<and>
   currentSession
     (run [(9000, Message (StartTracking ''finish report'')),
           (10000, TabUpdated 1 (Some ''complete'') (Some ''https://a.example'')),
           (11000, TabUpdated 1 (Some ''complete'') (Some ''https://b.example''))] init) =
     Some \<lparr>tabId = 1, url = ''https://b.example'', sessionId = 11000\<rparr> \<and>
   calls
     (run [(9000, Message (StartTracking ''finish report'')),
           (10000, TabUpdated 1 (Some ''complete'') (Some ''https://a.example'')),
           (11000, TabUpdated 1 (Some ''complete'') (Some ''https://b.example'')),
           (12000, TimeoutFires (CaptureTimeout 1 ''https://a.example''))] init) =
     [SendResponse (StartAck ''finish report''),
      SetTimeout (CaptureTimeout 1 ''https://a.example'') 2000, SendMessage 1,
      SetTimeout (CaptureTimeout 1 ''https://b.example'') 2000, SendMessage 1,
      CaptureVisibleTab ''https://a.example'' 11000]"
  by (simp add: init_def onUpdated_def flyOwl_def startSession_def endSession_def
        updateTabHistory_def restricted_def captureTimeout_def takeScreenshot_def Let_def)

end
